theory Spec2Isabelle
  imports Complex_Main
begin

section \<open>Numeric conversions of the worker\<close>

text \<open>
  Python floats are modelled as reals (exact arithmetic), Python ints as \<open>int\<close>.
  \<open>py_int\<close> is \<open>int(x)\<close> on a float: truncation toward zero.
  \<open>py_round\<close> is \<open>round(x)\<close> on a float: the nearest integer, a tie going to the
  even neighbour.
\<close>

definition py_int :: "real \<Rightarrow> int" where
  "py_int x = (if 0 \<le> x then \<lfloor>x\<rfloor> else \<lceil>x\<rceil>)"

definition py_round :: "real \<Rightarrow> int" where
  "py_round x =
     (if x - of_int \<lfloor>x\<rfloor> = 1 / 2
      then (if even \<lfloor>x\<rfloor> then \<lfloor>x\<rfloor> else \<lfloor>x\<rfloor> + 1)
      else \<lfloor>x + 1 / 2\<rfloor>)"

text \<open>\<open>clamp\<close> of tasks.py: \<open>max(lo, min(hi, n))\<close>.\<close>

definition clamp :: "int \<Rightarrow> int \<Rightarrow> int \<Rightarrow> int" where
  "clamp n lo hi = max lo (min hi n)"

text \<open>
  A raised Python exception: its class name and the text that \<open>str(e)\<close> gives.
\<close>

datatype exc = PyExc (exc_class: string) (exc_text: string)

text \<open>
  \<open>hz_to_midi\<close>: \<open>int(round(69 + 12 * np.log2(hz / 440.0)))\<close>. For a quotient that is
  not positive numpy's \<open>log2\<close> gives minus infinity (at zero) or NaN (below zero), and
  \<open>round\<close> raises on either; those are the two error branches. The real logarithm
  does not evaluate, so the values at 220, 440 and 880 Hz are proved below.
\<close>

definition hz_to_midi :: "real \<Rightarrow> exc + int" where
  "hz_to_midi hz =
     (if 0 < hz / 440 then Inr (py_round (69 + 12 * log 2 (hz / 440)))
      else if hz / 440 = 0
        then Inl (PyExc ''OverflowError'' ''cannot convert float infinity to integer'')
      else Inl (PyExc ''ValueError'' ''cannot convert float NaN to integer''))"

section \<open>The progress translator\<close>

text \<open>
  The two patterns of tasks.py, read on ASCII lines:
  \<^verbatim>\<open>RE_TQDM_PCT  = ^\s*(\d{1,3})%\|\<close> and
  \<^verbatim>\<open>RE_TQDM_FRAC = (\d+(?:\.\d+)?)/(\d+(?:\.\d+)?)\<close>.
  \<open>is_space\<close> is the class \<open>\s\<close>, \<open>is_digit\<close> the class \<open>\d\<close>.
\<close>

definition is_space :: "char \<Rightarrow> bool" where
  "is_space c =
     (c \<in> set [CHR 0x09, CHR 0x0A, CHR 0x0B, CHR 0x0C, CHR 0x0D,
               CHR 0x1C, CHR 0x1D, CHR 0x1E, CHR 0x1F, CHR 0x20])"

definition is_digit :: "char \<Rightarrow> bool" where
  "is_digit c = (c \<in> set ''0123456789'')"

text \<open>\<open>int(g)\<close> on a string of decimal digits.\<close>

definition digits_val :: "string \<Rightarrow> nat" where
  "digits_val ds = foldl (\<lambda>acc c. 10 * acc + (of_char c - 48)) 0 ds"

text \<open>
  \<open>RE_TQDM_PCT.match(line)\<close>, giving group 1. The greedy \<open>\s*\<close> takes every leading
  space and \<open>\d{1,3}\<close> the digits that follow; giving back a space or a digit never
  helps, since the next pattern item is a digit, respectively the percent sign. So the
  match succeeds exactly when one to three digits are followed by \<open>%|\<close>.
\<close>

definition RE_TQDM_PCT_match :: "string \<Rightarrow> string option" where
  "RE_TQDM_PCT_match line =
     (let r = dropWhile is_space line;
          ds = takeWhile is_digit r;
          rest = dropWhile is_digit r
      in if 1 \<le> length ds \<and> length ds \<le> 3 \<and> take 2 rest = ''%|''
         then Some ds else None)"

text \<open>
  The sub-pattern \<open>\d+(?:\.\d+)?\<close> at the start of a string, greedy: the matched
  text and what follows it.
\<close>

definition number_prefix :: "string \<Rightarrow> (string \<times> string) option" where
  "number_prefix s =
     (let ip = takeWhile is_digit s; r = dropWhile is_digit s
      in if ip = [] then None
         else (case r of
                 [] \<Rightarrow> Some (ip, r)
               | c # r' \<Rightarrow>
                   if c = CHR ''.'' \<and> takeWhile is_digit r' \<noteq> []
                   then Some (ip @ [c] @ takeWhile is_digit r', dropWhile is_digit r')
                   else Some (ip, r)))"

text \<open>
  \<open>RE_TQDM_FRAC\<close> matched at the start of a string, giving groups 1 and 2: a number,
  the slash, a number.
\<close>

definition RE_TQDM_FRAC_match_at :: "string \<Rightarrow> (string \<times> string) option" where
  "RE_TQDM_FRAC_match_at s =
     (case number_prefix s of
        None \<Rightarrow> None
      | Some (g1, r) \<Rightarrow>
          (case r of
             [] \<Rightarrow> None
           | c # r' \<Rightarrow>
               if c = CHR ''/''
               then (case number_prefix r' of
                       None \<Rightarrow> None
                     | Some (g2, r'') \<Rightarrow> Some (g1, g2))
               else None))"

text \<open>\<open>RE_TQDM_FRAC.search(line)\<close>: the match at the leftmost position that has one.\<close>

fun RE_TQDM_FRAC_search :: "string \<Rightarrow> (string \<times> string) option" where
  "RE_TQDM_FRAC_search [] = None"
| "RE_TQDM_FRAC_search (c # cs) =
     (case RE_TQDM_FRAC_match_at (c # cs) of
        Some g \<Rightarrow> Some g
      | None \<Rightarrow> RE_TQDM_FRAC_search cs)"

text \<open>\<open>float(g)\<close> on a group of the fractional pattern.\<close>

definition py_float :: "string \<Rightarrow> real" where
  "py_float g =
     (let ip = takeWhile is_digit g; fp = drop (Suc (length ip)) g
      in of_nat (digits_val ip) + of_nat (digits_val fp) / 10 ^ length fp)"

text \<open>
  Lines 91 to 94 of tasks.py, on the two numbers of a fractional match:
  \<open>if total > 0: pct = int((x / total) * 100)\<close>.
\<close>

definition frac_pct :: "real \<Rightarrow> real \<Rightarrow> int option" where
  "frac_pct x tot = (if 0 < tot then Some (py_int (x / tot * 100)) else None)"

text \<open>Lines 84 to 94: the percentage a line carries, if any.\<close>

definition extract_pct :: "string \<Rightarrow> int option" where
  "extract_pct line =
     (case RE_TQDM_PCT_match line of
        Some g \<Rightarrow> Some (int (digits_val g))
      | None \<Rightarrow>
          (case RE_TQDM_FRAC_search line of
             Some (g1, g2) \<Rightarrow> frac_pct (py_float g1) (py_float g2)
           | None \<Rightarrow> None))"

text \<open>Line 98, on the clamped percentage: \<open>scaled = 5 + int((pct / 100) * 80)\<close>.\<close>

definition scaled_of :: "int \<Rightarrow> int" where
  "scaled_of pct = 5 + py_int (of_int pct / 100 * 80)"

section \<open>The job store\<close>

text \<open>
  Every write to the store is an \<open>hset\<close> of a mapping onto the hash of one job. The
  mapping always carries \<open>state\<close> and \<open>progress\<close>; the message is left out when
  \<open>set_progress\<close> is called without one. The progress is kept as the integer that the
  code renders with \<open>str\<close>.
\<close>

datatype job_state = Queued | Running | Succeeded | Failed

record hset_call =
  key :: string
  state :: job_state
  progress :: int
  message :: "string option"

definition job_key :: "string \<Rightarrow> string" where
  "job_key job_id = ''stemtranscriber:job:'' @ job_id"

definition set_progress :: "string \<Rightarrow> int \<Rightarrow> string option \<Rightarrow> hset_call" where
  "set_progress job_id p msg =
     \<lparr>key = job_key job_id, state = Running, progress = p, message = msg\<rparr>"

text \<open>\<open>str(n)\<close> on an integer, for the messages that render one.\<close>

fun str_nat :: "nat \<Rightarrow> string" where
  "str_nat n =
     (if n < 10 then [char_of (48 + n)]
      else str_nat (n div 10) @ [char_of (48 + n mod 10)])"

declare str_nat.simps [simp del]

definition str_int :: "int \<Rightarrow> string" where
  "str_int i = (if i < 0 then CHR ''-'' # str_nat (nat (- i)) else str_nat (nat i))"

text \<open>\<open>raw.rstrip("\n")\<close>.\<close>

definition rstrip_nl :: "string \<Rightarrow> string" where
  "rstrip_nl raw = rev (dropWhile (\<lambda>c. c = CHR 0x0A) (rev raw))"

text \<open>
  Lines 80 to 101: the loop over the output lines of the tool, with \<open>last_scaled\<close> as
  its state; the result is the list of writes it makes, in order. The three bytes in
  the message are the UTF-8 form of the ellipsis character.
\<close>

fun progress_loop :: "string \<Rightarrow> int \<Rightarrow> string list \<Rightarrow> hset_call list" where
  "progress_loop job_id last_scaled [] = []"
| "progress_loop job_id last_scaled (raw # rest) =
     (case extract_pct (rstrip_nl raw) of
        None \<Rightarrow> progress_loop job_id last_scaled rest
      | Some p \<Rightarrow>
          (let pct = clamp p 0 100; scaled = scaled_of pct
           in if scaled \<noteq> last_scaled
              then set_progress job_id scaled
                     (Some (''Separating'' @ [CHR 0xE2, CHR 0x80, CHR 0xA6] @ '' ''
                            @ str_int pct @ ''%''))
                   # progress_loop job_id scaled rest
              else progress_loop job_id last_scaled rest))"

section \<open>The separation orchestrator\<close>

text \<open>
  The scratch tree below \<open>tmp_out\<close> after the tool has run: every directory of the
  tree (the root included) with the names of its entries, in the order in which
  \<open>rglob\<close> visits the directories.
\<close>

type_synonym scratch_tree = "(string \<times> string list) list"

text \<open>
  \<open>find_stem_folder\<close> (lines 23 to 34). \<open>rglob_bass\<close> lists the entries named
  \<open>bass.wav\<close> with their parent directory, \<open>glob_wav\<close> is \<open>d.glob("*.wav")\<close>, the
  score is the number of expected names present, and the stable \<open>sort_key\<close> on the
  negated score is \<open>sort(key=..., reverse=True)\<close>, which keeps the enumeration order
  among equal scores.
\<close>

definition expected :: "string list" where
  "expected = [''bass.wav'', ''drums.wav'', ''other.wav'', ''vocals.wav'']"

definition glob_wav :: "string list \<Rightarrow> string list" where
  "glob_wav names = filter (\<lambda>n. 4 \<le> length n \<and> drop (length n - 4) n = ''.wav'') names"

definition rglob_bass :: "scratch_tree \<Rightarrow> (string \<times> string list) list" where
  "rglob_bass t =
     concat (map (\<lambda>(d, names). map (\<lambda>p. (d, names)) (filter (\<lambda>n. n = ''bass.wav'') names)) t)"

definition find_stem_folder :: "scratch_tree \<Rightarrow> string option" where
  "find_stem_folder tmp_out =
     (let candidates =
            map (\<lambda>(d, names). (card (set expected \<inter> set (glob_wav names)), d))
                (rglob_bass tmp_out)
      in case sort_key (\<lambda>t. - int (fst t)) candidates of
           [] \<Rightarrow> None
         | c # cs \<Rightarrow> Some (snd c))"

text \<open>
  Lines 125 to 131: \<open>(stem_folder / name).exists()\<close> on the same tree, and the number
  of stems the copy loop copies.
\<close>

definition path_exists :: "scratch_tree \<Rightarrow> string \<Rightarrow> string \<Rightarrow> bool" where
  "path_exists t d name = list_ex (\<lambda>(d', names). d' = d \<and> name \<in> set names) t"

definition copy_stems :: "scratch_tree \<Rightarrow> string \<Rightarrow> nat" where
  "copy_stems t stem_folder = length (filter (\<lambda>name. path_exists t stem_folder name) expected)"

text \<open>
  What running the tool gives: \<open>Popen\<close> raises, or some lines are read and then
  either an exception is raised inside the \<open>try\<close> block or \<open>wait\<close> returns the exit
  code. The file-system calls outside the \<open>try\<close> block are taken to succeed.
\<close>

datatype proc_result = PopenRaised exc | Streamed "string list" "exc + int"

record sep_env =
  demucs_model :: string
  originals :: "string list"
  demucs :: proc_result
  tmp_tree :: scratch_tree

text \<open>\<open>separate_with_demucs\<close> (lines 48 to 138): the writes it makes, in order.\<close>

definition separate_with_demucs :: "sep_env \<Rightarrow> string \<Rightarrow> hset_call list" where
  "separate_with_demucs env job_id =
     set_progress job_id 1 (Some ''Preparing Demucs...'') #
     (if originals env = []
      then [\<lparr>key = job_key job_id, state = Failed, progress = 0,
              message = Some ''No uploaded audio''\<rparr>]
      else
        set_progress job_id 5 (Some (''Running Demucs ('' @ demucs_model env @ '')...'')) #
        (case demucs env of
           PopenRaised e \<Rightarrow>
             [\<lparr>key = job_key job_id, state = Failed, progress = 0,
               message = Some (''Demucs exception: '' @ exc_text e)\<rparr>]
         | Streamed lines fin \<Rightarrow>
             progress_loop job_id (- 1) lines @
             (case fin of
                Inl e \<Rightarrow>
                  [\<lparr>key = job_key job_id, state = Failed, progress = 0,
                    message = Some (''Demucs exception: '' @ exc_text e)\<rparr>]
              | Inr rc \<Rightarrow>
                  if rc \<noteq> 0
                  then [\<lparr>key = job_key job_id, state = Failed, progress = 0,
                          message = Some ''Demucs failed. Check worker logs.''\<rparr>]
                  else
                    set_progress job_id 90 (Some ''Collecting stems...'') #
                    (case find_stem_folder (tmp_tree env) of
                       None \<Rightarrow>
                         [\<lparr>key = job_key job_id, state = Failed, progress = 0,
                           message = Some ''No demucs output found''\<rparr>]
                     | Some stem_folder \<Rightarrow>
                         if copy_stems (tmp_tree env) stem_folder = 0
                         then [\<lparr>key = job_key job_id, state = Failed, progress = 0,
                                 message = Some ''No stems copied''\<rparr>]
                         else [\<lparr>key = job_key job_id, state = Succeeded, progress = 100,
                                 message = Some ''Stems ready (Demucs).''\<rparr>]))))"

section \<open>The pitch-to-note transcriber\<close>

text \<open>A note is \<open>(pitch, start_time, end_time)\<close>.\<close>

type_synonym midi_note = "int \<times> real \<times> real"

text \<open>
  Lines 197 to 200: the per-frame note numbers; an unvoiced frame (NaN, here \<open>None\<close>)
  keeps the sentinel -1. The first frame on which \<open>hz_to_midi\<close> raises ends the loop.
\<close>

fun midi_frame_of :: "real option list \<Rightarrow> exc + int list" where
  "midi_frame_of [] = Inr []"
| "midi_frame_of (None # f0) =
     (case midi_frame_of f0 of Inl e \<Rightarrow> Inl e | Inr fr \<Rightarrow> Inr (- 1 # fr))"
| "midi_frame_of (Some hz # f0) =
     (case hz_to_midi hz of
        Inl e \<Rightarrow> Inl e
      | Inr n \<Rightarrow> (case midi_frame_of f0 of Inl e \<Rightarrow> Inl e | Inr fr \<Rightarrow> Inr (n # fr)))"

text \<open>
  \<open>int(np.median(vals))\<close>: the middle value of the sorted values, or the mean of the
  two middle ones cut down to an integer.
\<close>

definition np_median_int :: "int list \<Rightarrow> int" where
  "np_median_int vals =
     (let s = sort vals; n = length s
      in if odd n then s ! (n div 2)
         else py_int (of_int (s ! (n div 2 - 1) + s ! (n div 2)) / 2))"

text \<open>
  Lines 204 to 209: \<open>for i in range(2, len(midi_frame) - 2)\<close>, updating the array in
  place. The slice \<open>midi_frame[i-2:i+3]\<close> is read from the array as it stands when
  frame \<open>i\<close> is reached.
\<close>

function smooth_loop :: "int list \<Rightarrow> nat \<Rightarrow> int list" where
  "smooth_loop midi_frame i =
     (if i + 2 < length midi_frame
      then (let window = take 5 (drop (i - 2) midi_frame);
                vals = filter (\<lambda>v. 0 \<le> v) window
            in smooth_loop
                 (if 3 \<le> length vals then midi_frame[i := np_median_int vals] else midi_frame)
                 (Suc i))
      else midi_frame)"
  by pat_completeness auto
termination
  by (relation "measure (\<lambda>(fr, i). length fr - i)") auto

declare smooth_loop.simps [simp del]

definition smooth :: "int list \<Rightarrow> int list" where
  "smooth midi_frame = smooth_loop midi_frame 2"

text \<open>Lines 223 to 225: the inner loop that advances \<open>j\<close> over frames equal to the note.\<close>

function scan_run :: "int list \<Rightarrow> int \<Rightarrow> nat \<Rightarrow> nat" where
  "scan_run midi_frame n j =
     (if j < length midi_frame \<and> midi_frame ! j = n then scan_run midi_frame n (Suc j) else j)"
  by pat_completeness auto
termination
  by (relation "measure (\<lambda>(fr, n, j). length fr - j)") auto

declare scan_run.simps [simp del]

lemma scan_run_ge: "j \<le> scan_run fr n j"
  by (induction fr n j rule: scan_run.induct) (subst scan_run.simps, auto)


text \<open>The hop added to the last frame time (line 226).\<close>

definition hop :: "real list \<Rightarrow> real" where
  "hop tms = (if 1 < length tms then tms ! 1 - tms ! 0 else 1 / 100)"

text \<open>The error numpy raises for an index past the end of the frame times.\<close>

definition index_error :: "nat \<Rightarrow> nat \<Rightarrow> exc" where
  "index_error i n =
     PyExc ''IndexError''
       (''index '' @ str_nat i @ '' is out of bounds for axis 0 with size '' @ str_nat n)"

text \<open>
  Lines 214 to 229: the outer loop, from index \<open>i\<close> with the notes appended so far.
  The minimum note length (0.06 in the source) is a parameter.
\<close>

function segment_loop ::
  "real \<Rightarrow> real list \<Rightarrow> int list \<Rightarrow> nat \<Rightarrow> midi_note list \<Rightarrow> exc + midi_note list" where
  "segment_loop min_note_len_s tms midi_frame i notes =
     (if i < length midi_frame
      then
        (if midi_frame ! i < 0
         then segment_loop min_note_len_s tms midi_frame (Suc i) notes
         else if \<not> i < length tms then Inl (index_error i (length tms))
         else
           (let n = midi_frame ! i;
                start_t = tms ! i;
                j = scan_run midi_frame n (Suc i)
            in if \<not> j - 1 < length tms then Inl (index_error (j - 1) (length tms))
               else
                 (let end_t = tms ! (j - 1) + hop tms
                  in segment_loop min_note_len_s tms midi_frame j
                       (if min_note_len_s \<le> end_t - start_t
                        then notes @ [(n, start_t, end_t)] else notes))))
      else Inr notes)"
  by pat_completeness auto
termination
proof (relation "measure (\<lambda>(m, ts, fr, i, ns). length fr - i)", goal_cases)
  case 1
  show ?case by simp
next
  case (2 m ts fr i ns)
  then show ?case by simp
next
  case (3 m ts fr i ns n st j et)
  have "Suc i \<le> scan_run fr (fr ! i) (Suc i)" by (rule scan_run_ge)
  with 3 show ?case by simp
qed

declare segment_loop.simps [simp del]

definition build_notes :: "real \<Rightarrow> real list \<Rightarrow> int list \<Rightarrow> exc + midi_note list" where
  "build_notes min_note_len_s tms midi_frame =
     segment_loop min_note_len_s tms midi_frame 0 []"

text \<open>The outcomes of the calls the transcriber makes outside its own code.\<close>

record tr_env =
  sfile_exists :: bool
  mkdir_out :: "exc option"
  load_audio :: "exc option"
  pyin :: "exc + (real option list \<times> real list)"
  pm_write :: "midi_note list \<Rightarrow> exc option"
  m21_convert :: "exc option"

text \<open>
  The body of the \<open>try\<close> block of \<open>transcribe_monophonic\<close> (lines 161 to 256): the
  writes made, and whether the body returned or raised.
\<close>

definition try_body :: "tr_env \<Rightarrow> string \<Rightarrow> string \<Rightarrow> hset_call list \<times> (exc + unit)" where
  "try_body env job_id stem_name =
     (let w1 = [set_progress job_id 1 (Some ''Preparing transcription...'')]
      in if \<not> sfile_exists env
         then (w1 @ [\<lparr>key = job_key job_id, state = Failed, progress = 0,
                       message = Some (''Stem not found: '' @ stem_name)\<rparr>], Inr ())
         else
          (case mkdir_out env of
             Some e \<Rightarrow> (w1, Inl e)
           | None \<Rightarrow>
          (let w2 = w1 @ [set_progress job_id 5 (Some ''Loading audio...'')]
           in case load_audio env of
                Some e \<Rightarrow> (w2, Inl e)
              | None \<Rightarrow>
          (let w3 = w2 @ [set_progress job_id 15 (Some ''Detecting pitch (pyin)...'')]
           in case pyin env of
                Inl e \<Rightarrow> (w3, Inl e)
              | Inr (f0, tms) \<Rightarrow>
          (case midi_frame_of f0 of
             Inl e \<Rightarrow> (w3, Inl e)
           | Inr midi_frame \<Rightarrow>
          (let smoothed = smooth midi_frame;
               w4 = w3 @ [set_progress job_id 35 (Some ''Building notes...'')]
           in case build_notes (6 / 100) tms smoothed of
                Inl e \<Rightarrow> (w4, Inl e)
              | Inr notes \<Rightarrow>
          (if notes = []
           then (w4 @ [\<lparr>key = job_key job_id, state = Failed, progress = 0,
                         message =
                           Some ''No notes detected (try bass stem, or cleaner audio).''\<rparr>],
                 Inr ())
           else
          (let w5 = w4 @ [set_progress job_id 55 (Some ''Writing MIDI...'')]
           in case pm_write env notes of
                Some e \<Rightarrow> (w5, Inl e)
              | None \<Rightarrow>
          (let w6 = w5 @ [set_progress job_id 75 (Some ''Converting to MusicXML...'')]
           in case m21_convert env of
                Some e \<Rightarrow> (w6, Inl e)
              | None \<Rightarrow>
                  (w6 @ [\<lparr>key = job_key job_id, state = Succeeded, progress = 100,
                           message = Some ''Transcription ready (MIDI + MusicXML).''\<rparr>],
                   Inr ()))))))))))"

text \<open>
  \<open>transcribe_monophonic\<close> with its handler (lines 258 to 260): the failure is
  written and the exception raised again.
\<close>

definition transcribe_monophonic ::
  "tr_env \<Rightarrow> string \<Rightarrow> string \<Rightarrow> hset_call list \<times> (exc + unit)" where
  "transcribe_monophonic env job_id stem_name =
     (case try_body env job_id stem_name of
        (ws, Inl e) \<Rightarrow>
          (ws @ [\<lparr>key = job_key job_id, state = Failed, progress = 0,
                  message = Some (''Transcription exception: '' @ exc_text e)\<rparr>], Inl e)
      | (ws, Inr u) \<Rightarrow> (ws, Inr ()))"

section \<open>The store invariant and two concrete runs\<close>

text \<open>What the data model asks of one write to a job's record.\<close>

definition write_ok :: "hset_call \<Rightarrow> bool" where
  "write_ok w =
     (0 \<le> progress w \<and> progress w \<le> 100 \<and>
      (state w = Succeeded \<longrightarrow> progress w = 100) \<and>
      (state w = Failed \<longrightarrow> progress w = 0))"

text \<open>
  A separation run that succeeds, and a transcription run whose audio load raises.
\<close>

definition sep_env_ok :: sep_env where
  "sep_env_ok =
     \<lparr>demucs_model = ''htdemucs'', originals = [''original.mp3''],
      demucs = Streamed ['' 10%|#'', ''50/100''] (Inr 0),
      tmp_tree = [(''htdemucs/original'', [''bass.wav'', ''drums.wav''])]\<rparr>"

definition tr_env_fail :: tr_env where
  "tr_env_fail =
     \<lparr>sfile_exists = True, mkdir_out = None,
      load_audio = Some (PyExc ''RuntimeError'' ''bad audio''),
      pyin = Inr ([], []), pm_write = (\<lambda>notes. None), m21_convert = None\<rparr>"

section \<open>The smoothing window\<close>

text \<open>
  The value the smoothing step gives a frame from a window of five values and the
  frame's current value: the median of the non-sentinel values when there are at
  least three, else the current value.
\<close>

definition window_value :: "int list \<Rightarrow> int \<Rightarrow> int" where
  "window_value window cur =
     (let vals = filter (\<lambda>v. 0 \<le> v) window
      in if 3 \<le> length vals then np_median_int vals else cur)"

text \<open>
  The smoothing of claim C3, in the claim's words: the window of frame \<open>i\<close> is taken
  from the sequence given to the step.
\<close>

definition claimed_smooth_at :: "int list \<Rightarrow> nat \<Rightarrow> int" where
  "claimed_smooth_at midi_frame i =
     window_value (take 5 (drop (i - 2) midi_frame)) (midi_frame ! i)"

section \<open>Segmentation as the specification words it\<close>









section \<open>Properties\<close>

subsection \<open>Helper facts on rounding and the patterns\<close>








lemma scaled_of_div: "0 \<le> p \<Longrightarrow> scaled_of p = 5 + (p * 80) div 100"
proof -
  assume a: "0 \<le> p"
  have e: "(of_int p::real) / 100 * 80 = of_int (p * 80) / of_int 100" by simp
  have "0 \<le> (of_int p::real) / 100 * 80" using a by simp
  then have "py_int (of_int p / 100 * 80) = \<lfloor>(of_int (p * 80)::real) / of_int 100\<rfloor>"
    unfolding py_int_def e by simp
  also have "\<dots> = (p * 80) div 100" by (rule floor_divide_of_int_eq)
  finally show ?thesis by (simp add: scaled_of_def)
qed

lemma scaled_of_range: "0 \<le> p \<Longrightarrow> p \<le> 100 \<Longrightarrow> 5 \<le> scaled_of p \<and> scaled_of p \<le> 85"
  by (simp add: scaled_of_div) linarith

lemma clamp_range: "lo \<le> hi \<Longrightarrow> lo \<le> clamp n lo hi \<and> clamp n lo hi \<le> hi"
  by (simp add: clamp_def)

lemma digit_not_space: "is_digit c \<Longrightarrow> \<not> is_space c"
  by (auto simp: is_digit_def is_space_def)

lemma RE_TQDM_PCT_match_shape:
  assumes "\<forall>c\<in>set ws. is_space c" "\<forall>c\<in>set ds. is_digit c"
    and "1 \<le> length ds" "length ds \<le> 3"
  shows "RE_TQDM_PCT_match (ws @ ds @ ''%|'' @ rest) = Some ds"
proof -
  from assms(3) obtain d ds' where ds: "ds = d # ds'" by (cases ds) auto
  have nd: "\<not> is_space d" using assms(2) ds digit_not_space by auto
  have a: "dropWhile is_space (ws @ ds @ ''%|'' @ rest) = ds @ ''%|'' @ rest"
    using assms(1) nd ds by (simp add: dropWhile_append)
  have np: "\<not> is_digit CHR ''%''" by (simp add: is_digit_def)
  have b: "takeWhile is_digit (ds @ ''%|'' @ rest) = ds"
    using assms(2) np by (simp add: takeWhile_append)
  have c: "dropWhile is_digit (ds @ ''%|'' @ rest) = ''%|'' @ rest"
    using assms(2) np by (simp add: dropWhile_append)
  show ?thesis unfolding RE_TQDM_PCT_match_def a b c Let_def using assms(3,4) by simp
qed

lemma RE_TQDM_PCT_match_SomeD:
  assumes "RE_TQDM_PCT_match line = Some g"
  shows "\<exists>ws rest. (\<forall>c\<in>set ws. is_space c) \<and> (\<forall>c\<in>set g. is_digit c)
            \<and> 1 \<le> length g \<and> length g \<le> 3 \<and> line = ws @ g @ ''%|'' @ rest"
proof -
  let ?r = "dropWhile is_space line"
  let ?rest = "dropWhile is_digit ?r"
  from assms have g: "g = takeWhile is_digit ?r" and l: "1 \<le> length g" "length g \<le> 3"
    and t: "take 2 ?rest = ''%|''"
    by (auto simp: RE_TQDM_PCT_match_def Let_def split: if_splits)
  have "?rest = take 2 ?rest @ drop 2 ?rest" by simp
  then have r: "?rest = ''%|'' @ drop 2 ?rest" using t by simp
  have "line = takeWhile is_space line @ ?r" by simp
  also have "?r = g @ ?rest" using g by simp
  finally have "line = takeWhile is_space line @ g @ ''%|'' @ drop 2 ?rest" using r by simp
  moreover have "\<forall>c\<in>set (takeWhile is_space line). is_space c"
    by (auto dest: set_takeWhileD)
  moreover have "\<forall>c\<in>set g. is_digit c" using g by (auto dest: set_takeWhileD)
  ultimately show ?thesis using l by blast
qed


subsection \<open>Pitch conversion\<close>



subsection \<open>Progress translation\<close>






text \<open>
  Claim C7, as stated: a line made of a number and a percent sign, with nothing after
  the percent sign, matches the leading-percentage pattern. The line \<open>50%\<close> does not
  match, and yields no percentage at all.
\<close>

theorem pct_marker_counterexample:
  "RE_TQDM_PCT_match ''50%'' = None \<and> extract_pct ''50%'' = None"
  by (simp add: extract_pct_def RE_TQDM_PCT_match_def RE_TQDM_FRAC_match_at_def
        number_prefix_def is_space_def is_digit_def)

text \<open>
  Claim C7, amended. The leading-percentage pattern matches a line exactly when the
  line is optional whitespace, then one to three digits, then a percent sign and a
  vertical bar, then anything; the digits are group 1, and their value is the
  percentage extracted from the line.
\<close>

theorem pct_marker_needs_bar:
  "(RE_TQDM_PCT_match line = Some g) =
     (\<exists>ws rest. (\<forall>c\<in>set ws. is_space c) \<and> (\<forall>c\<in>set g. is_digit c) \<and>
        1 \<le> length g \<and> length g \<le> 3 \<and> line = ws @ g @ ''%|'' @ rest) \<and>
   (RE_TQDM_PCT_match line = Some g \<longrightarrow> extract_pct line = Some (int (digits_val g)))"
proof -
  have a: "(RE_TQDM_PCT_match line = Some g) =
     (\<exists>ws rest. (\<forall>c\<in>set ws. is_space c) \<and> (\<forall>c\<in>set g. is_digit c) \<and>
        1 \<le> length g \<and> length g \<le> 3 \<and> line = ws @ g @ ''%|'' @ rest)"
    using RE_TQDM_PCT_match_SomeD[of line g] RE_TQDM_PCT_match_shape[of _ g] by blast
  have b: "RE_TQDM_PCT_match line = Some g \<longrightarrow> extract_pct line = Some (int (digits_val g))"
    by (simp add: extract_pct_def)
  from a b show ?thesis by (rule conjI)
qed

theorem pct_marker_needs_bar_witness:
  "RE_TQDM_PCT_match '' 65%|###'' = Some ''65'' \<and> extract_pct '' 65%|###'' = Some 65"
proof -
  have "\<exists>ws rest. (\<forall>c\<in>set ws. is_space c) \<and> (\<forall>c\<in>set ''65''. is_digit c) \<and>
        1 \<le> length ''65'' \<and> length ''65'' \<le> 3 \<and> '' 65%|###'' = ws @ ''65'' @ ''%|'' @ rest"
    by (rule exI[where x = "'' ''"], rule exI[where x = "''###''"])
       (simp add: is_space_def is_digit_def)
  with pct_marker_needs_bar[of "'' 65%|###''" "''65''"] show ?thesis
    by (simp add: digits_val_def)
qed

subsection \<open>Helper facts on the store writes and the stem folder\<close>

lemma find_stem_folder_has_bass:
  assumes "find_stem_folder t = Some d"
  shows "path_exists t d ''bass.wav''"
proof -
  let ?cands = "map (\<lambda>(d, names). (card (set expected \<inter> set (glob_wav names)), d)) (rglob_bass t)"
  from assms obtain c cs where sk: "sort_key (\<lambda>t. - int (fst t)) ?cands = c # cs" and d: "d = snd c"
    by (auto simp: find_stem_folder_def Let_def split: list.splits)
  have "c \<in> set (sort_key (\<lambda>t. - int (fst t)) ?cands)" using sk by simp
  then have "c \<in> set ?cands" by simp
  then obtain names where "(d, names) \<in> set (rglob_bass t)" using d by auto
  then have "(d, names) \<in> set t \<and> ''bass.wav'' \<in> set names"
    by (auto simp: rglob_bass_def)
  then show ?thesis by (auto simp: path_exists_def list_ex_iff)
qed

lemma copy_stems_pos: "path_exists t d ''bass.wav'' \<Longrightarrow> 1 \<le> copy_stems t d"
  by (simp add: copy_stems_def expected_def)

lemma progress_loop_running:
  "w \<in> set (progress_loop job_id last_scaled lines) \<Longrightarrow>
   state w = Running \<and> 5 \<le> progress w \<and> progress w \<le> 85 \<and>
   (\<exists>m. message w = Some (CHR ''S'' # m))"
proof (induction lines arbitrary: last_scaled)
  case Nil
  then show ?case by simp
next
  case (Cons raw rest)
  show ?case
  proof (cases "extract_pct (rstrip_nl raw)")
    case None
    with Cons show ?thesis by simp
  next
    case (Some p)
    have r: "5 \<le> scaled_of (clamp p 0 100) \<and> scaled_of (clamp p 0 100) \<le> 85"
      using scaled_of_range[of "clamp p 0 100"] clamp_range[of 0 100 p] by simp
    show ?thesis
    proof (cases "scaled_of (clamp p 0 100) \<noteq> last_scaled")
      case True
      with Cons Some r show ?thesis
        by (auto simp: Let_def set_progress_def)
    next
      case False
      with Cons Some show ?thesis by (simp add: Let_def)
    qed
  qed
qed

lemma separate_writes_ok: "w \<in> set (separate_with_demucs env job_id) \<Longrightarrow> write_ok w"
  by (auto simp: separate_with_demucs_def write_ok_def set_progress_def
           dest!: progress_loop_running
           split: if_splits proc_result.splits sum.splits option.splits)

lemma separate_never_no_stems:
  "w \<in> set (separate_with_demucs env job_id) \<Longrightarrow> message w \<noteq> Some ''No stems copied''"
  by (auto simp: separate_with_demucs_def set_progress_def
           dest!: progress_loop_running find_stem_folder_has_bass copy_stems_pos
           split: if_splits proc_result.splits sum.splits option.splits)

lemma try_body_writes_ok: "w \<in> set (fst (try_body env job_id stem_name)) \<Longrightarrow> write_ok w"
  by (auto simp: try_body_def Let_def write_ok_def set_progress_def
           split: if_splits sum.splits option.splits prod.splits)

lemma transcribe_writes_ok:
  "w \<in> set (fst (transcribe_monophonic env job_id stem_name)) \<Longrightarrow> write_ok w"
  using try_body_writes_ok[of w env job_id stem_name]
  by (auto simp: transcribe_monophonic_def write_ok_def split: prod.splits sum.splits)

lemma sep_eval: "map progress (separate_with_demucs sep_env_ok ''j'') = [1, 5, 13, 45, 90, 100]"
  by code_simp

lemma sep_eval2: "map state (separate_with_demucs sep_env_ok ''j'') = [Running, Running, Running, Running, Running, Succeeded]"
  by code_simp

lemma tr_eval: "transcribe_monophonic tr_env_fail ''j'' ''bass.wav'' =
   ([set_progress ''j'' 1 (Some ''Preparing transcription...''),
     set_progress ''j'' 5 (Some ''Loading audio...''),
     \<lparr>key = job_key ''j'', state = Failed, progress = 0,
      message = Some ''Transcription exception: bad audio''\<rparr>], Inl (PyExc ''RuntimeError'' ''bad audio''))"
  by (simp add: transcribe_monophonic_def try_body_def tr_env_fail_def)













subsection \<open>The job store invariant\<close>

text \<open>
  Claim C8. Every write that \<open>separate_with_demucs\<close> and \<open>transcribe_monophonic\<close>
  make to a job's record keeps the progress between 0 and 100, has progress 100 when
  it sets the state to succeeded, and progress 0 when it sets the state to failed.
\<close>

theorem job_writes_in_range:
  "(\<forall>w\<in>set (separate_with_demucs senv job_id). write_ok w) \<and>
   (\<forall>w\<in>set (fst (transcribe_monophonic tenv job_id stem_name)). write_ok w)"
  using separate_writes_ok transcribe_writes_ok by blast

theorem job_writes_in_range_witness:
  "map progress (separate_with_demucs sep_env_ok ''j'') = [1, 5, 13, 45, 90, 100] \<and>
   map state (separate_with_demucs sep_env_ok ''j'')
     = [Running, Running, Running, Running, Running, Succeeded] \<and>
   map progress (fst (transcribe_monophonic tr_env_fail ''j'' ''bass.wav'')) = [1, 5, 0] \<and>
   map state (fst (transcribe_monophonic tr_env_fail ''j'' ''bass.wav''))
     = [Running, Running, Failed] \<and>
   list_all write_ok (separate_with_demucs sep_env_ok ''j'') \<and>
   list_all write_ok (fst (transcribe_monophonic tr_env_fail ''j'' ''bass.wav''))"
  using job_writes_in_range[of sep_env_ok "''j''" tr_env_fail "''bass.wav''"] sep_eval sep_eval2
  by (simp add: tr_eval set_progress_def list_all_iff)

subsection \<open>Failure reporting of the transcriber\<close>




subsection \<open>The stem folder and the copy loop\<close>

text \<open>
  Claim C10. A directory returned by \<open>find_stem_folder\<close> holds an entry named
  \<open>bass.wav\<close>, so the copy loop run on the same tree copies at least one stem, and no
  write of \<open>separate_with_demucs\<close> carries the message of the no-stems-copied branch.
\<close>

theorem bass_found_so_stems_copied:
  "(find_stem_folder t = Some d \<longrightarrow> path_exists t d ''bass.wav'' \<and> 1 \<le> copy_stems t d) \<and>
   (\<forall>w\<in>set (separate_with_demucs env job_id). message w \<noteq> Some ''No stems copied'')"
  using find_stem_folder_has_bass copy_stems_pos separate_never_no_stems by blast

theorem bass_found_so_stems_copied_witness:
  "find_stem_folder (tmp_tree sep_env_ok) = Some ''htdemucs/original'' \<and>
   path_exists (tmp_tree sep_env_ok) ''htdemucs/original'' ''bass.wav'' \<and>
   copy_stems (tmp_tree sep_env_ok) ''htdemucs/original'' = 2 \<and>
   list_all (\<lambda>w. message w \<noteq> Some ''No stems copied'') (separate_with_demucs sep_env_ok ''j'')"
proof -
  have a: "find_stem_folder (tmp_tree sep_env_ok) = Some ''htdemucs/original''"
    by code_simp
  have b: "copy_stems (tmp_tree sep_env_ok) ''htdemucs/original'' = 2"
    by code_simp
  from bass_found_so_stems_copied[of "tmp_tree sep_env_ok" "''htdemucs/original''" sep_env_ok "''j''"]
  show ?thesis using a b by (simp add: list_all_iff)
qed

subsection \<open>Jitter smoothing\<close>

lemma window5:
  assumes "2 \<le> i" "i + 2 < length fr"
  shows "take 5 (drop (i - 2) fr) = [fr ! (i - 2), fr ! (i - 1), fr ! i, fr ! (i + 1), fr ! (i + 2)]"
proof -
  obtain k where k: "i = k + 2" using assms(1) by (metis add.commute le_Suc_ex)
  have l: "k + 4 < length fr" using assms(2) k by simp
  have d: "\<And>j. j < length fr \<Longrightarrow> drop j fr = fr ! j # drop (Suc j) fr"
    by (simp add: Cons_nth_drop_Suc)
  have "drop k fr = fr ! k # drop (Suc k) fr" using l by (intro d) simp
  also have "drop (Suc k) fr = fr ! (k + 1) # drop (Suc (Suc k)) fr"
    using d[of "Suc k"] l by simp
  also have "drop (Suc (Suc k)) fr = fr ! (k + 2) # drop (Suc (Suc (Suc k))) fr"
    using d[of "Suc (Suc k)"] l by simp
  also have "drop (Suc (Suc (Suc k))) fr = fr ! (k + 3) # drop (Suc (Suc (Suc (Suc k)))) fr"
    using d[of "Suc (Suc (Suc k))"] l by (simp add: numeral_3_eq_3)
  also have "drop (Suc (Suc (Suc (Suc k)))) fr = fr ! (k + 4) # drop (Suc (Suc (Suc (Suc (Suc k))))) fr"
    using d[of "Suc (Suc (Suc (Suc k)))"] l by (simp add: numeral_eq_Suc)
  finally have "take 5 (drop k fr) = [fr ! k, fr ! (k + 1), fr ! (k + 2), fr ! (k + 3), fr ! (k + 4)]"
    by (simp add: numeral_eq_Suc)
  then show ?thesis using k by (simp add: numeral_eq_Suc)
qed

lemma smooth_loop_step:
  "i + 2 < length fr \<Longrightarrow>
   smooth_loop fr i =
     smooth_loop (if 3 \<le> length (filter (\<lambda>v. 0 \<le> v) (take 5 (drop (i - 2) fr)))
                  then fr[i := np_median_int (filter (\<lambda>v. 0 \<le> v) (take 5 (drop (i - 2) fr)))]
                  else fr) (Suc i)"
  by (subst smooth_loop.simps) (simp add: Let_def)

lemma smooth_loop_stop: "\<not> i + 2 < length fr \<Longrightarrow> smooth_loop fr i = fr"
  by (subst smooth_loop.simps) simp

lemma smooth_loop_spec:
  "2 \<le> i \<Longrightarrow>
   length (smooth_loop fr i) = length fr \<and>
   (\<forall>k<length fr. k < i \<or> length fr \<le> k + 2 \<longrightarrow> smooth_loop fr i ! k = fr ! k) \<and>
   (\<forall>k. i \<le> k \<and> k + 2 < length fr \<longrightarrow>
      smooth_loop fr i ! k =
        window_value [smooth_loop fr i ! (k - 2), smooth_loop fr i ! (k - 1),
                      fr ! k, fr ! (k + 1), fr ! (k + 2)] (fr ! k))"
proof (induction fr i rule: smooth_loop.induct)
  case (1 fr i)
  show ?case
  proof (cases "i + 2 < length fr")
    case False
    then show ?thesis by (simp add: smooth_loop_stop)
  next
    case True
    define w where "w = take 5 (drop (i - 2) fr)"
    define vals where "vals = filter (\<lambda>v. 0 \<le> v) w"
    define fr' where "fr' = (if 3 \<le> length vals then fr[i := np_median_int vals] else fr)"
    define out where "out = smooth_loop fr' (Suc i)"
    have out: "smooth_loop fr i = out"
      using smooth_loop_step[OF True] by (simp add: out_def fr'_def vals_def w_def)
    have len': "length fr' = length fr" by (simp add: fr'_def)
    have same: "\<And>k. k \<noteq> i \<Longrightarrow> fr' ! k = fr ! k" by (simp add: fr'_def)
    have ati: "fr' ! i = window_value w (fr ! i)"
      using True by (simp add: fr'_def window_value_def vals_def Let_def)
    have w5: "w = [fr ! (i - 2), fr ! (i - 1), fr ! i, fr ! (i + 1), fr ! (i + 2)]"
      unfolding w_def using window5[OF "1.prems" True] .
    have IH: "length out = length fr' \<and>
        (\<forall>k<length fr'. k < Suc i \<or> length fr' \<le> k + 2 \<longrightarrow> out ! k = fr' ! k) \<and>
        (\<forall>k. Suc i \<le> k \<and> k + 2 < length fr' \<longrightarrow>
           out ! k = window_value [out ! (k - 2), out ! (k - 1), fr' ! k, fr' ! (k + 1), fr' ! (k + 2)] (fr' ! k))"
      using "1.IH"[OF True w_def vals_def] "1.prems" unfolding out_def fr'_def by simp
    have a: "length out = length fr" using IH len' by simp
    have b: "\<forall>k<length fr. k < i \<or> length fr \<le> k + 2 \<longrightarrow> out ! k = fr ! k"
    proof (intro allI impI)
      fix k assume k: "k < length fr" and c: "k < i \<or> length fr \<le> k + 2"
      then have "k \<noteq> i" using True by auto
      moreover have "out ! k = fr' ! k" using IH k c len' by auto
      ultimately show "out ! k = fr ! k" using same by simp
    qed
    have c: "\<forall>k. i \<le> k \<and> k + 2 < length fr \<longrightarrow>
        out ! k = window_value [out ! (k - 2), out ! (k - 1), fr ! k, fr ! (k + 1), fr ! (k + 2)] (fr ! k)"
    proof (intro allI impI)
      fix k assume k: "i \<le> k \<and> k + 2 < length fr"
      show "out ! k = window_value [out ! (k - 2), out ! (k - 1), fr ! k, fr ! (k + 1), fr ! (k + 2)] (fr ! k)"
      proof (cases "k = i")
        case True
        have "out ! i = fr' ! i" using IH k True len' by auto
        moreover have "out ! (i - 2) = fr ! (i - 2)" using b k True "1.prems" by auto
        moreover have "out ! (i - 1) = fr ! (i - 1)" using b k True "1.prems" by auto
        ultimately show ?thesis using ati w5 True by simp
      next
        case False
        then have "Suc i \<le> k \<and> k + 2 < length fr'" using k len' by auto
        then have "out ! k = window_value [out ! (k - 2), out ! (k - 1), fr' ! k, fr' ! (k + 1), fr' ! (k + 2)] (fr' ! k)"
          using IH by blast
        moreover have "fr' ! k = fr ! k" "fr' ! (k + 1) = fr ! (k + 1)" "fr' ! (k + 2) = fr ! (k + 2)"
          using False k by (auto intro: same)
        ultimately show ?thesis by simp
      qed
    qed
    show ?thesis unfolding out using a b c by blast
  qed
qed

lemma smooth_eval: "smooth [40, 40, 45, 40, 45, 45, 45] = [40, 40, 40, 40, 45, 45, 45]"
  by code_simp

lemma claimed_eval: "claimed_smooth_at [40, 40, 45, 40, 45, 45, 45] 3 = 45"
  by code_simp

text \<open>
  Claim C3, as stated: every interior frame gets the median of the non-sentinel values
  of its window in the sequence given to the step. On seven voiced frames the code
  gives frame 3 the value 40 where the window of the given sequence has median 45:
  frame 2 was already replaced when frame 3 was reached.
\<close>

theorem smooth_window_counterexample:
  "smooth [40, 40, 45, 40, 45, 45, 45] ! 3 = 40 \<and>
   claimed_smooth_at [40, 40, 45, 40, 45, 45, 45] 3 = 45 \<and>
   smooth [40, 40, 45, 40, 45, 45, 45] ! 3 \<noteq> claimed_smooth_at [40, 40, 45, 40, 45, 45, 45] 3"
  by (simp add: smooth_eval claimed_eval)

text \<open>
  Claim C3, amended. The step keeps the length, leaves the first two and the last two
  frames unchanged, and gives every interior frame \<open>i\<close> the window value of the five
  values made of the already smoothed frames \<open>i - 2\<close> and \<open>i - 1\<close> and the given
  frames \<open>i\<close>, \<open>i + 1\<close>, \<open>i + 2\<close>: the median of the non-sentinel ones (cut down to
  an integer) when at least three are non-sentinel, the given frame \<open>i\<close> otherwise.
\<close>

theorem smooth_in_place:
  "length (smooth midi_frame) = length midi_frame \<and>
   (\<forall>i<length midi_frame. i < 2 \<or> length midi_frame \<le> i + 2 \<longrightarrow>
      smooth midi_frame ! i = midi_frame ! i) \<and>
   (\<forall>i. 2 \<le> i \<and> i + 2 < length midi_frame \<longrightarrow>
      smooth midi_frame ! i =
        window_value [smooth midi_frame ! (i - 2), smooth midi_frame ! (i - 1),
                      midi_frame ! i, midi_frame ! (i + 1), midi_frame ! (i + 2)]
          (midi_frame ! i))"
  unfolding smooth_def using smooth_loop_spec[of 2 midi_frame] by simp

theorem smooth_in_place_witness:
  "smooth [40, 40, 45, 40, 45, 45, 45] = [40, 40, 40, 40, 45, 45, 45] \<and>
   smooth [40, 40, 45, 40, 45, 45, 45] ! 3
     = window_value [smooth [40, 40, 45, 40, 45, 45, 45] ! 1,
                     smooth [40, 40, 45, 40, 45, 45, 45] ! 2, 40, 45, 45] 40 \<and>
   window_value [40, 40, 40, 45, 45] 40 = 40"
proof -
  have "window_value [40, 40, 40, 45, 45] 40 = 40" by code_simp
  with smooth_in_place[of "[40, 40, 45, 40, 45, 45, 45]"] smooth_eval show ?thesis
    by simp
qed


subsection \<open>Segmentation\<close>

















subsection \<open>Segmentation and maximal runs\<close>











end
